theory Spec2Isabelle
  imports
    Main
    "HOL-Library.Sublist"
    "HOL-Library.List_Lexorder"
    "HOL-Library.Product_Lexorder"
    "HOL-Library.Multiset"
begin

section \<open>Strings\<close>

text \<open>
  A Python string is a sequence of Unicode code points: it is modelled as a list of
  natural numbers, the code points, and compared as Python compares strings,
  lexicographically by code point. A literal of ASCII text is written \<open>ascii ''...''\<close>
  and a single ASCII character \<open>ord CHR ''.''\<close>.

  \<open>str.lower\<close>, \<open>str.isspace\<close>, \<open>str.isprintable\<close> and \<open>str.strip\<close> are built-ins of
  Python. They are modelled as CPython 3.11 computes them, on the code points below
  \<open>U+0400\<close> (Basic Latin to Greek and Coptic); white space is modelled on all code
  points. A code point from \<open>U+0400\<close> on is outside the repertoire of the model: it is
  left unchanged by \<open>lower\<close> and taken as caseless and as not printable.
\<close>

type_synonym ustring = "nat list"

definition ord :: "char \<Rightarrow> nat" where
  "ord c = of_char c"

definition ascii :: "string \<Rightarrow> ustring" where
  "ascii s = map ord s"

fun in_ranges :: "nat \<Rightarrow> (nat \<times> nat) list \<Rightarrow> bool" where
  "in_ranges c [] = False"
| "in_ranges c ((a, b) # rs) = (if a \<le> c \<and> c \<le> b then True else in_ranges c rs)"

text \<open>
  The code points from \<open>U+0100\<close> to \<open>U+03FF\<close> that \<open>str.lower\<close> changes, each with
  its lowercase, in two tables: the Latin letters below \<open>U+0250\<close>, and the Greek and
  Coptic letters. The capital sigma \<open>U+03A3\<close>, whose lowercase depends on its
  neighbours, is in neither.
\<close>

definition latin_lower_table :: "(nat \<times> nat list) list" where
  "latin_lower_table =
    [(0x100, [0x101]), (0x102, [0x103]), (0x104, [0x105]), (0x106, [0x107]),
     (0x108, [0x109]), (0x10A, [0x10B]), (0x10C, [0x10D]), (0x10E, [0x10F]),
     (0x110, [0x111]), (0x112, [0x113]), (0x114, [0x115]), (0x116, [0x117]),
     (0x118, [0x119]), (0x11A, [0x11B]), (0x11C, [0x11D]), (0x11E, [0x11F]),
     (0x120, [0x121]), (0x122, [0x123]), (0x124, [0x125]), (0x126, [0x127]),
     (0x128, [0x129]), (0x12A, [0x12B]), (0x12C, [0x12D]), (0x12E, [0x12F]),
     (0x130, [0x69, 0x307]), (0x132, [0x133]), (0x134, [0x135]), (0x136, [0x137]),
     (0x139, [0x13A]), (0x13B, [0x13C]), (0x13D, [0x13E]), (0x13F, [0x140]),
     (0x141, [0x142]), (0x143, [0x144]), (0x145, [0x146]), (0x147, [0x148]),
     (0x14A, [0x14B]), (0x14C, [0x14D]), (0x14E, [0x14F]), (0x150, [0x151]),
     (0x152, [0x153]), (0x154, [0x155]), (0x156, [0x157]), (0x158, [0x159]),
     (0x15A, [0x15B]), (0x15C, [0x15D]), (0x15E, [0x15F]), (0x160, [0x161]),
     (0x162, [0x163]), (0x164, [0x165]), (0x166, [0x167]), (0x168, [0x169]),
     (0x16A, [0x16B]), (0x16C, [0x16D]), (0x16E, [0x16F]), (0x170, [0x171]),
     (0x172, [0x173]), (0x174, [0x175]), (0x176, [0x177]), (0x178, [0xFF]),
     (0x179, [0x17A]), (0x17B, [0x17C]), (0x17D, [0x17E]), (0x181, [0x253]),
     (0x182, [0x183]), (0x184, [0x185]), (0x186, [0x254]), (0x187, [0x188]),
     (0x189, [0x256]), (0x18A, [0x257]), (0x18B, [0x18C]), (0x18E, [0x1DD]),
     (0x18F, [0x259]), (0x190, [0x25B]), (0x191, [0x192]), (0x193, [0x260]),
     (0x194, [0x263]), (0x196, [0x269]), (0x197, [0x268]), (0x198, [0x199]),
     (0x19C, [0x26F]), (0x19D, [0x272]), (0x19F, [0x275]), (0x1A0, [0x1A1]),
     (0x1A2, [0x1A3]), (0x1A4, [0x1A5]), (0x1A6, [0x280]), (0x1A7, [0x1A8]),
     (0x1A9, [0x283]), (0x1AC, [0x1AD]), (0x1AE, [0x288]), (0x1AF, [0x1B0]),
     (0x1B1, [0x28A]), (0x1B2, [0x28B]), (0x1B3, [0x1B4]), (0x1B5, [0x1B6]),
     (0x1B7, [0x292]), (0x1B8, [0x1B9]), (0x1BC, [0x1BD]), (0x1C4, [0x1C6]),
     (0x1C5, [0x1C6]), (0x1C7, [0x1C9]), (0x1C8, [0x1C9]), (0x1CA, [0x1CC]),
     (0x1CB, [0x1CC]), (0x1CD, [0x1CE]), (0x1CF, [0x1D0]), (0x1D1, [0x1D2]),
     (0x1D3, [0x1D4]), (0x1D5, [0x1D6]), (0x1D7, [0x1D8]), (0x1D9, [0x1DA]),
     (0x1DB, [0x1DC]), (0x1DE, [0x1DF]), (0x1E0, [0x1E1]), (0x1E2, [0x1E3]),
     (0x1E4, [0x1E5]), (0x1E6, [0x1E7]), (0x1E8, [0x1E9]), (0x1EA, [0x1EB]),
     (0x1EC, [0x1ED]), (0x1EE, [0x1EF]), (0x1F1, [0x1F3]), (0x1F2, [0x1F3]),
     (0x1F4, [0x1F5]), (0x1F6, [0x195]), (0x1F7, [0x1BF]), (0x1F8, [0x1F9]),
     (0x1FA, [0x1FB]), (0x1FC, [0x1FD]), (0x1FE, [0x1FF]), (0x200, [0x201]),
     (0x202, [0x203]), (0x204, [0x205]), (0x206, [0x207]), (0x208, [0x209]),
     (0x20A, [0x20B]), (0x20C, [0x20D]), (0x20E, [0x20F]), (0x210, [0x211]),
     (0x212, [0x213]), (0x214, [0x215]), (0x216, [0x217]), (0x218, [0x219]),
     (0x21A, [0x21B]), (0x21C, [0x21D]), (0x21E, [0x21F]), (0x220, [0x19E]),
     (0x222, [0x223]), (0x224, [0x225]), (0x226, [0x227]), (0x228, [0x229]),
     (0x22A, [0x22B]), (0x22C, [0x22D]), (0x22E, [0x22F]), (0x230, [0x231]),
     (0x232, [0x233]), (0x23A, [0x2C65]), (0x23B, [0x23C]), (0x23D, [0x19A]),
     (0x23E, [0x2C66]), (0x241, [0x242]), (0x243, [0x180]), (0x244, [0x289]),
     (0x245, [0x28C]), (0x246, [0x247]), (0x248, [0x249]), (0x24A, [0x24B]),
     (0x24C, [0x24D]), (0x24E, [0x24F])]"

definition greek_lower_table :: "(nat \<times> nat list) list" where
  "greek_lower_table =
    [(0x370, [0x371]), (0x372, [0x373]), (0x376, [0x377]), (0x37F, [0x3F3]),
     (0x386, [0x3AC]), (0x388, [0x3AD]), (0x389, [0x3AE]), (0x38A, [0x3AF]),
     (0x38C, [0x3CC]), (0x38E, [0x3CD]), (0x38F, [0x3CE]), (0x391, [0x3B1]),
     (0x392, [0x3B2]), (0x393, [0x3B3]), (0x394, [0x3B4]), (0x395, [0x3B5]),
     (0x396, [0x3B6]), (0x397, [0x3B7]), (0x398, [0x3B8]), (0x399, [0x3B9]),
     (0x39A, [0x3BA]), (0x39B, [0x3BB]), (0x39C, [0x3BC]), (0x39D, [0x3BD]),
     (0x39E, [0x3BE]), (0x39F, [0x3BF]), (0x3A0, [0x3C0]), (0x3A1, [0x3C1]),
     (0x3A4, [0x3C4]), (0x3A5, [0x3C5]), (0x3A6, [0x3C6]), (0x3A7, [0x3C7]),
     (0x3A8, [0x3C8]), (0x3A9, [0x3C9]), (0x3AA, [0x3CA]), (0x3AB, [0x3CB]),
     (0x3CF, [0x3D7]), (0x3D8, [0x3D9]), (0x3DA, [0x3DB]), (0x3DC, [0x3DD]),
     (0x3DE, [0x3DF]), (0x3E0, [0x3E1]), (0x3E2, [0x3E3]), (0x3E4, [0x3E5]),
     (0x3E6, [0x3E7]), (0x3E8, [0x3E9]), (0x3EA, [0x3EB]), (0x3EC, [0x3ED]),
     (0x3EE, [0x3EF]), (0x3F4, [0x3B8]), (0x3F7, [0x3F8]), (0x3F9, [0x3F2]),
     (0x3FA, [0x3FB]), (0x3FD, [0x37B]), (0x3FE, [0x37C]), (0x3FF, [0x37D])]"

text \<open>The lowercase of one code point other than the capital sigma.\<close>

definition lower_cp :: "nat \<Rightarrow> nat list" where
  "lower_cp c =
     (if c < 0x80 then (if 0x41 \<le> c \<and> c \<le> 0x5A then [c + 32] else [c])
      else if c < 0x100 then
        (if 0xC0 \<le> c \<and> c \<le> 0xDE \<and> c \<noteq> 0xD7 then [c + 32] else [c])
      else if c < 0x250 then
        (case map_of latin_lower_table c of Some l \<Rightarrow> l | None \<Rightarrow> [c])
      else
        (case map_of greek_lower_table c of Some l \<Rightarrow> l | None \<Rightarrow> [c]))"

text \<open>
  The two properties of a code point that decide the lowercase of a capital sigma:
  being case-ignorable, and being cased (for a code point that is not case-ignorable).
\<close>

definition case_ignorable :: "nat \<Rightarrow> bool" where
  "case_ignorable c =
     in_ranges c
       [(0x27, 0x27), (0x2E, 0x2E), (0x3A, 0x3A), (0x5E, 0x5E), (0x60, 0x60), (0xA8, 0xA8),
        (0xAD, 0xAD), (0xAF, 0xAF), (0xB4, 0xB4), (0xB7, 0xB8), (0x2B0, 0x36F),
        (0x374, 0x375), (0x37A, 0x37A), (0x384, 0x385), (0x387, 0x387)]"

definition cased :: "nat \<Rightarrow> bool" where
  "cased c =
     in_ranges c
       [(0x41, 0x5A), (0x61, 0x7A), (0xAA, 0xAA), (0xB5, 0xB5), (0xBA, 0xBA), (0xC0, 0xD6),
        (0xD8, 0xF6), (0xF8, 0x1BA), (0x1BC, 0x1BF), (0x1C4, 0x293), (0x295, 0x2AF),
        (0x370, 0x373), (0x376, 0x377), (0x37B, 0x37D), (0x37F, 0x37F), (0x386, 0x386),
        (0x388, 0x38A), (0x38C, 0x38C), (0x38E, 0x3A1), (0x3A3, 0x3F5), (0x3F7, 0x3FF)]"

definition capital_sigma :: nat where
  "capital_sigma = 0x3A3"

text \<open>
  A capital sigma is followed by a cased letter when the first code point after it that
  is not case-ignorable is cased.
\<close>

definition followed_by_cased :: "ustring \<Rightarrow> bool" where
  "followed_by_cased s =
     (case dropWhile case_ignorable s of [] \<Rightarrow> False | d # _ \<Rightarrow> cased d)"

text \<open>
  \<open>s.lower()\<close>, from the left. The flag tells whether the last code point before the
  current one that is not case-ignorable is cased. A capital sigma becomes the final
  sigma \<open>U+03C2\<close> when it is preceded by a cased letter and not followed by one, and
  the sigma \<open>U+03C3\<close> otherwise; every other code point has its own lowercase.
\<close>

fun lower_aux :: "bool \<Rightarrow> ustring \<Rightarrow> ustring" where
  "lower_aux after_cased [] = []"
| "lower_aux after_cased (c # s) =
     (if c = capital_sigma then
        (if after_cased \<and> \<not> followed_by_cased s then 0x3C2 else 0x3C3) #
        lower_aux True s
      else
        lower_cp c @
        lower_aux (if case_ignorable c then after_cased else cased c) s)"

definition lower :: "ustring \<Rightarrow> ustring" where
  "lower s = lower_aux False s"

definition isspace :: "nat \<Rightarrow> bool" where
  "isspace c =
     in_ranges c
       [(0x09, 0x0D), (0x1C, 0x20), (0x85, 0x85), (0xA0, 0xA0), (0x1680, 0x1680),
        (0x2000, 0x200A), (0x2028, 0x2029), (0x202F, 0x202F), (0x205F, 0x205F),
        (0x3000, 0x3000)]"

definition isprintable :: "nat \<Rightarrow> bool" where
  "isprintable c =
     in_ranges c
       [(0x20, 0x7E), (0xA1, 0xAC), (0xAE, 0x377), (0x37A, 0x37F), (0x384, 0x38A),
        (0x38C, 0x38C), (0x38E, 0x3A1), (0x3A3, 0x3FF)]"

text \<open>\<open>s.strip()\<close>: leading and trailing white space removed.\<close>

definition strip :: "ustring \<Rightarrow> ustring" where
  "strip s = rev (dropWhile isspace (rev (dropWhile isspace s)))"

text \<open>
  \<open>t.find(ch, i)\<close> for one character \<open>ch\<close> and a start \<open>i \<ge> 0\<close>: the lowest index
  \<open>\<ge> i\<close> holding \<open>ch\<close>, or \<open>-1\<close>.
\<close>

function str_find :: "ustring \<Rightarrow> nat \<Rightarrow> nat \<Rightarrow> int" where
  "str_find t ch i =
     (if length t \<le> i then - 1
      else if t ! i = ch then int i
      else str_find t ch (Suc i))"
  by pat_completeness auto
termination
  by (relation "measure (\<lambda>(t, ch, i). length t - i)") auto

declare str_find.simps [simp del]

section \<open>Fuzzy scorer\<close>

text \<open>
  The \<open>for ch in q\<close> loop of \<open>fuzzy_score\<close>, over the rest of the query, with the loop
  variables \<open>i\<close> and \<open>score\<close>; \<open>None\<close> is the early \<open>return None\<close>.
\<close>

fun score_loop :: "ustring \<Rightarrow> ustring \<Rightarrow> nat \<Rightarrow> int \<Rightarrow> int option" where
  "score_loop t [] i score = Some score"
| "score_loop t (ch # q) i score =
     (let pos = str_find t ch i in
      if pos = - 1 then None
      else score_loop t q (nat pos + 1) (score + (pos - int i)))"

text \<open>
  The general path of \<open>fuzzy_score\<close> (from \<open>i = 0\<close> to the last \<open>return\<close>), on the
  lowercased query and text.
\<close>

definition fuzzy_general :: "ustring \<Rightarrow> ustring \<Rightarrow> int option" where
  "fuzzy_general q t =
     (case score_loop t q 0 0 of
        None \<Rightarrow> None
      | Some score \<Rightarrow> Some (score + (int (length t) - int (length q))))"

definition fuzzy_score :: "ustring \<Rightarrow> ustring \<Rightarrow> int option" where
  "fuzzy_score query text =
     (let q = lower query; t = lower text in
      if q = [] then Some 0
      else if prefix q t then Some 0
      else fuzzy_general q t)"

text \<open>
  The scorer as the specification words it, on the lowercased strings: each query
  character is matched at its first occurrence in what is left of the text after the
  previous match, and its gap is the number of characters skipped to reach it. The
  result lists the gaps, or is \<open>None\<close> when some character is not found.
\<close>

fun greedy_gaps :: "ustring \<Rightarrow> ustring \<Rightarrow> nat list option" where
  "greedy_gaps [] t = Some []"
| "greedy_gaps (c # cs) t =
     (if c \<in> set t then
        (let k = length (takeWhile (\<lambda>x. x \<noteq> c) t) in
         map_option ((#) k) (greedy_gaps cs (drop (Suc k) t)))
      else None)"

section \<open>Desktop entries and their repository\<close>

record DesktopEntry =
  name :: ustring
  exec :: ustring
  comment :: ustring
  terminal :: bool
  path :: ustring
  no_display :: bool
  categories :: ustring

text \<open>\<open>re.sub(r"%[a-zA-Z@]", "", s)\<close>: every field code is removed, left to right.\<close>

definition is_field_code :: "nat \<Rightarrow> bool" where
  "is_field_code c \<longleftrightarrow>
     c \<in> set (ascii ''abcdefghijklmnopqrstuvwxyzABCDEFGHIJKLMNOPQRSTUVWXYZ@'')"

fun remove_field_codes :: "ustring \<Rightarrow> ustring" where
  "remove_field_codes (c # d # s) =
     (if c = ord CHR ''%'' \<and> is_field_code d then remove_field_codes s
      else c # remove_field_codes (d # s))"
| "remove_field_codes s = s"

text \<open>\<open>re.sub(r"\s+", " ", s)\<close>: every run of white space becomes one space.\<close>

function collapse_ws :: "ustring \<Rightarrow> ustring" where
  "collapse_ws [] = []"
| "collapse_ws (c # s) =
     (if isspace c then ord CHR '' '' # collapse_ws (dropWhile isspace s)
      else c # collapse_ws s)"
  by pat_completeness auto
termination
  by (relation "measure length") (auto simp: length_dropWhile_le less_Suc_eq_le)

definition sanitize_exec_field :: "ustring \<Rightarrow> ustring" where
  "sanitize_exec_field exec_field = strip (collapse_ws (remove_field_codes exec_field))"

definition clean_text :: "ustring \<Rightarrow> ustring" where
  "clean_text s = (if s = [] then [] else strip (collapse_ws (filter isprintable s)))"

text \<open>
  What \<open>ConfigParser\<close> hands to \<open>parse_desktop_file\<close>: a file read into sections, a
  section being a map from option names, which \<open>ConfigParser\<close> stores lowercased, to
  values. \<open>sec.get(key, fallback=v)\<close> looks the lowercased key up; \<open>sec.getboolean\<close>
  raises \<open>ValueError\<close> (here \<open>None\<close>) on a value that is not one of the eight it knows.
  The file system is the two operations the loader performs on it: \<open>glob.glob\<close> of the
  \<open>*.desktop\<close> pattern in a directory and reading a file as a configuration; \<open>None\<close>
  stands for a raised exception.
\<close>

type_synonym config_section = "ustring \<rightharpoonup> ustring"

type_synonym config = "ustring \<rightharpoonup> config_section"

record filesystem =
  fs_glob :: "ustring \<Rightarrow> ustring list option"
  fs_read :: "ustring \<Rightarrow> config option"

definition sec_get :: "config_section \<Rightarrow> ustring \<Rightarrow> ustring \<Rightarrow> ustring" where
  "sec_get sec key fallback = (case sec (lower key) of Some v \<Rightarrow> v | None \<Rightarrow> fallback)"

definition getboolean :: "config_section \<Rightarrow> ustring \<Rightarrow> bool \<Rightarrow> bool option" where
  "getboolean sec key fallback =
     (case sec (lower key) of
        None \<Rightarrow> Some fallback
      | Some v \<Rightarrow>
          if lower v \<in> set [ascii ''1'', ascii ''yes'', ascii ''true'', ascii ''on''] then Some True
          else if lower v \<in> set [ascii ''0'', ascii ''no'', ascii ''false'', ascii ''off''] then Some False
          else None)"

text \<open>\<open>os.path.basename\<close> and the root part of \<open>os.path.splitext\<close> on a base name.\<close>

definition basename :: "ustring \<Rightarrow> ustring" where
  "basename p = rev (takeWhile (\<lambda>c. c \<noteq> ord CHR ''/'') (rev p))"

definition splitext_root :: "ustring \<Rightarrow> ustring" where
  "splitext_root b =
     (if ord CHR ''.'' \<in> set b then
        (let root = rev (tl (dropWhile (\<lambda>c. c \<noteq> ord CHR ''.'') (rev b))) in
         if filter (\<lambda>c. c \<noteq> ord CHR ''.'') root \<noteq> [] then root else b)
      else b)"

definition parse_desktop_file :: "filesystem \<Rightarrow> ustring \<Rightarrow> DesktopEntry option" where
  "parse_desktop_file fs p =
     (case fs_read fs p of
        None \<Rightarrow> None
      | Some cfg \<Rightarrow>
          (case cfg (ascii ''Desktop Entry'') of
             None \<Rightarrow> None
           | Some sec \<Rightarrow>
               (case getboolean sec (ascii ''NoDisplay'') False of
                  None \<Rightarrow> None
                | Some nd \<Rightarrow>
                    (let nm = sec_get sec (ascii ''Name'') (splitext_root (basename p));
                         exec_field = sec_get sec (ascii ''Exec'') []
                     in if exec_field = [] then None
                        else
                          (let cm = sec_get sec (ascii ''Comment'') [] in
                           case getboolean sec (ascii ''Terminal'') False of
                             None \<Rightarrow> None
                           | Some tm \<Rightarrow>
                               (let cats = sec_get sec (ascii ''Categories'') [] in
                                Some \<lparr>name = nm,
                                      exec = sanitize_exec_field exec_field,
                                      comment = clean_text cm,
                                      terminal = tm,
                                      path = p,
                                      no_display = nd,
                                      categories = cats\<rparr>))))))"

text \<open>
  The inner loop of \<open>collect_desktop_entries\<close> over the files of one directory, and the
  outer loop over the directories; the state is \<open>(seen_names, entries)\<close>.
\<close>

fun scan_files ::
  "filesystem \<Rightarrow> ustring list \<Rightarrow> ustring set \<times> DesktopEntry list \<Rightarrow>
   ustring set \<times> DesktopEntry list" where
  "scan_files fs [] st = st"
| "scan_files fs (p # ps) (seen_names, entries) =
     (case parse_desktop_file fs p of
        None \<Rightarrow> scan_files fs ps (seen_names, entries)
      | Some d \<Rightarrow>
          if no_display d then scan_files fs ps (seen_names, entries)
          else if name d \<in> seen_names then scan_files fs ps (seen_names, entries)
          else scan_files fs ps (insert (name d) seen_names, entries @ [d]))"

fun scan_paths ::
  "filesystem \<Rightarrow> ustring list \<Rightarrow> ustring set \<times> DesktopEntry list \<Rightarrow>
   ustring set \<times> DesktopEntry list" where
  "scan_paths fs [] st = st"
| "scan_paths fs (base # paths) st =
     (case fs_glob fs base of
        None \<Rightarrow> scan_paths fs paths st
      | Some files \<Rightarrow> scan_paths fs paths (scan_files fs files st))"

definition collect_desktop_entries :: "filesystem \<Rightarrow> ustring list \<Rightarrow> DesktopEntry list" where
  "collect_desktop_entries fs paths =
     sort_key (\<lambda>x. lower (name x)) (snd (scan_paths fs paths ({}, [])))"

text \<open>
  The entries the loader meets, in the order in which it meets them: every file of every
  directory of the search path, in \<open>glob\<close> order, that parses and is not hidden.
\<close>

fun visible :: "filesystem \<Rightarrow> ustring list \<Rightarrow> DesktopEntry list" where
  "visible fs [] = []"
| "visible fs (p # ps) =
     (case parse_desktop_file fs p of
        None \<Rightarrow> visible fs ps
      | Some d \<Rightarrow> if no_display d then visible fs ps else d # visible fs ps)"

definition scan_order :: "filesystem \<Rightarrow> ustring list \<Rightarrow> DesktopEntry list" where
  "scan_order fs paths =
     visible fs
       (concat (map (\<lambda>base. case fs_glob fs base of None \<Rightarrow> [] | Some files \<Rightarrow> files) paths))"

text \<open>
  Of a list of entries, those whose name is neither in \<open>S\<close> nor the name of an earlier
  entry of the list.
\<close>

fun first_by_name :: "ustring set \<Rightarrow> DesktopEntry list \<Rightarrow> DesktopEntry list" where
  "first_by_name S [] = []"
| "first_by_name S (d # ds) =
     (if name d \<in> S then first_by_name S ds
      else d # first_by_name (insert (name d) S) ds)"

text \<open>
  A search path of two directories with three shortcut files: the two files named
  \<open>e.desktop\<close> both declare the name \<open>Editor\<close>, the third declares \<open>editor\<close> and has
  nothing but a field code as its command.
\<close>

definition example_fs :: filesystem where
  "example_fs = \<lparr>
     fs_glob = (\<lambda>base.
        if base = ascii ''/a'' then Some [ascii ''/a/e.desktop'']
        else if base = ascii ''/b'' then Some [ascii ''/b/e.desktop'', ascii ''/b/l.desktop'']
        else Some []),
     fs_read = (\<lambda>p.
        if p = ascii ''/a/e.desktop'' then
          Some [ascii ''Desktop Entry'' \<mapsto>
                  [ascii ''name'' \<mapsto> ascii ''Editor'', ascii ''exec'' \<mapsto> ascii ''vim %F'']]
        else if p = ascii ''/b/e.desktop'' then
          Some [ascii ''Desktop Entry'' \<mapsto>
                  [ascii ''name'' \<mapsto> ascii ''Editor'', ascii ''exec'' \<mapsto> ascii ''emacs'']]
        else if p = ascii ''/b/l.desktop'' then
          Some [ascii ''Desktop Entry'' \<mapsto>
                  [ascii ''name'' \<mapsto> ascii ''editor'', ascii ''exec'' \<mapsto> ascii ''%U'']]
        else None)\<rparr>"

definition example_paths :: "ustring list" where
  "example_paths = [ascii ''/a'', ascii ''/b'']"


section \<open>Filtering and ranking\<close>

text \<open>
  The inner loop of \<open>update_filter\<close> over the four texts of an entry: \<open>best\<close> after the
  loop, \<open>None\<close> when no text matched.
\<close>

definition best_step :: "ustring \<Rightarrow> int option \<Rightarrow> ustring \<Rightarrow> int option" where
  "best_step q best t =
     (case fuzzy_score q t of
        None \<Rightarrow> best
      | Some s \<Rightarrow>
          (case best of
             None \<Rightarrow> Some s
           | Some b \<Rightarrow> if s < b then Some s else Some b))"

definition best_score :: "ustring \<Rightarrow> DesktopEntry \<Rightarrow> int option" where
  "best_score q e = foldl (best_step q) None [name e, comment e, categories e, exec e]"

text \<open>The outer loop of \<open>update_filter\<close>: the list \<open>scored\<close> before it is sorted.\<close>

fun scored :: "ustring \<Rightarrow> DesktopEntry list \<Rightarrow> (DesktopEntry \<times> int) list" where
  "scored q [] = []"
| "scored q (e # es) =
     (case best_score q e of
        None \<Rightarrow> scored q es
      | Some best \<Rightarrow> (e, best) # scored q es)"

definition rank_key :: "DesktopEntry \<times> int \<Rightarrow> int \<times> ustring" where
  "rank_key x = (snd x, lower (name (fst x)))"

text \<open>
  The list that \<open>update_filter\<close> assigns to \<open>self.filtered\<close>, as a function of
  \<open>self.query\<close> and \<open>self.entries\<close>: the specification's \<open>rank\<close>.
\<close>

definition rank :: "ustring \<Rightarrow> DesktopEntry list \<Rightarrow> (DesktopEntry \<times> int) list" where
  "rank query es = (let q = strip query in sort_key rank_key (scored q es))"

text \<open>
  The specification's words for the score of a candidate: the scores of the four fields
  in their fixed order, and the minimum of those that are not \<open>NO_MATCH\<close>.
\<close>

definition field_scores :: "ustring \<Rightarrow> DesktopEntry \<Rightarrow> int option list" where
  "field_scores q e =
     [fuzzy_score q (name e), fuzzy_score q (comment e),
      fuzzy_score q (categories e), fuzzy_score q (exec e)]"

definition min_field_score :: "ustring \<Rightarrow> DesktopEntry \<Rightarrow> int option" where
  "min_field_score q e =
     (let matches = map the (filter (\<lambda>s. s \<noteq> None) (field_scores q e)) in
      if matches = [] then None else Some (Min (set matches)))"

section \<open>Selection state and the event loop\<close>

record LauncherUI =
  entries :: "DesktopEntry list"
  query :: ustring
  filtered :: "(DesktopEntry \<times> int) list"
  selected :: int

definition update_filter :: "LauncherUI \<Rightarrow> LauncherUI" where
  "update_filter ui =
     (let ui' = ui\<lparr>filtered := rank (query ui) (entries ui)\<rparr> in
      if int (length (filtered ui')) \<le> selected ui'
      then ui'\<lparr>selected := max 0 (int (length (filtered ui')) - 1)\<rparr>
      else ui')"

text \<open>The fields set by \<open>__init__\<close>, which ends with a call of \<open>update_filter\<close>.\<close>

definition init :: "DesktopEntry list \<Rightarrow> LauncherUI" where
  "init es = update_filter \<lparr>entries = es, query = [], filtered = [], selected = 0\<rparr>"

text \<open>
  What \<open>get_wch\<close> returns: a character, or the integer code of a function key. The
  codes are constants of the curses module; the loop compares against five of them,
  which are distinct, and ignores every other.
\<close>

datatype curses_key = KEY_BACKSPACE | KEY_UP | KEY_DOWN | KEY_NPAGE | KEY_PPAGE | KEY_OTHER int

datatype wch = WStr nat | WKey curses_key

text \<open>
  One iteration of the loop of \<open>run\<close>, without the drawing: the loop goes on with a
  state, or \<open>run\<close> returns after launching an entry, or returns on escape, or an index
  is out of range.
\<close>

datatype outcome = Continue LauncherUI | Launch DesktopEntry | Quit | IndexError

text \<open>\<open>xs[i]\<close> for a Python list: a negative index counts from the end.\<close>

definition py_index :: "'a list \<Rightarrow> int \<Rightarrow> 'a option" where
  "py_index xs i =
     (let n = int (length xs) in
      if 0 \<le> i \<and> i < n then Some (xs ! nat i)
      else if - n \<le> i \<and> i < 0 then Some (xs ! nat (n + i))
      else None)"

fun handle_key :: "LauncherUI \<Rightarrow> wch \<Rightarrow> outcome" where
  "handle_key ui (WStr ch) =
     (if ch = ord CHR 0x0A then
        (if filtered ui = [] then Continue ui
         else
           (case py_index (filtered ui) (selected ui) of
              None \<Rightarrow> IndexError
            | Some x \<Rightarrow> Launch (fst x)))
      else if ch = ord CHR 0x1B then Quit
      else if ch = ord CHR 0x09 then Continue ui
      else if ch \<in> set [ord CHR 0x7F, ord CHR 0x08] then
        Continue (update_filter (ui\<lparr>query := butlast (query ui)\<rparr>))
      else if isprintable ch then
        Continue (update_filter (ui\<lparr>query := query ui @ [ch]\<rparr>))
      else Continue ui)"
| "handle_key ui (WKey k) =
     (if k = KEY_BACKSPACE then
        Continue (update_filter (ui\<lparr>query := butlast (query ui)\<rparr>))
      else if k = KEY_UP then
        Continue (ui\<lparr>selected := max 0 (selected ui - 1)\<rparr>)
      else if k = KEY_DOWN then
        Continue (ui\<lparr>selected :=
          min (max 0 (int (length (filtered ui)) - 1)) (selected ui + 1)\<rparr>)
      else if k = KEY_NPAGE then
        Continue (ui\<lparr>selected :=
          min (int (length (filtered ui)) - 1) (selected ui + 10)\<rparr>)
      else if k = KEY_PPAGE then
        Continue (ui\<lparr>selected := max 0 (selected ui - 10)\<rparr>)
      else Continue ui)"

text \<open>
  The loop of \<open>run\<close> on the keys read so far: \<open>Continue\<close> when it waits for the next
  key.
\<close>

fun run :: "LauncherUI \<Rightarrow> wch list \<Rightarrow> outcome" where
  "run ui [] = Continue ui"
| "run ui (k # ks) =
     (case handle_key ui k of
        Continue ui' \<Rightarrow> run ui' ks
      | Launch e \<Rightarrow> Launch e
      | Quit \<Rightarrow> Quit
      | IndexError \<Rightarrow> IndexError)"

text \<open>
  Three entries of a repository, after the specification's scenario: \<open>Firefox\<close>,
  \<open>Files\<close> and \<open>Terminal\<close>.
\<close>

definition entry_firefox :: DesktopEntry where
  "entry_firefox = \<lparr>name = ascii ''Firefox'', exec = ascii ''firefox'', comment = ascii ''Web Browser'',
     terminal = False, path = ascii ''/usr/share/applications/firefox.desktop'',
     no_display = False, categories = ascii ''Network;''\<rparr>"

definition entry_files :: DesktopEntry where
  "entry_files = \<lparr>name = ascii ''Files'', exec = ascii ''nautilus'', comment = [],
     terminal = False, path = ascii ''/usr/share/applications/files.desktop'',
     no_display = False, categories = []\<rparr>"

definition entry_terminal :: DesktopEntry where
  "entry_terminal = \<lparr>name = ascii ''Terminal'', exec = ascii ''xterm'', comment = [],
     terminal = False, path = ascii ''/usr/share/applications/terminal.desktop'',
     no_display = False, categories = ascii ''System;''\<rparr>"


section \<open>Properties of the scorer\<close>

lemmas str_eval =
  ascii_def ord_def lower_def lower_cp_def case_ignorable_def cased_def capital_sigma_def
  followed_by_cased_def

lemma lower_Nil [simp]: "lower [] = []"
  by (simp add: lower_def)

text \<open>
  Up to the first capital sigma, lowercasing goes code point by code point: the
  lowercase of a string without capital sigma is the beginning of the lowercase of
  every extension of the string.
\<close>

lemma lower_aux_extends:
  "capital_sigma \<notin> set q \<Longrightarrow> prefix (lower_aux b q) (lower_aux b (q @ r))"
  by (induction q arbitrary: b) simp_all

lemma lower_extends: "capital_sigma \<notin> set q \<Longrightarrow> prefix (lower q) (lower (q @ r))"
  by (simp add: lower_def lower_aux_extends)

lemma str_find_eq:
  "str_find t ch i =
     (if ch \<in> set (drop i t)
      then int i + int (length (takeWhile (\<lambda>x. x \<noteq> ch) (drop i t)))
      else - 1)"
proof (induction t ch i rule: str_find.induct)
  case (1 t ch i)
  show ?case
  proof (cases "length t \<le> i")
    case True
    then show ?thesis by (simp add: str_find.simps)
  next
    case False
    then have d: "drop i t = t ! i # drop (Suc i) t"
      by (simp add: Cons_nth_drop_Suc)
    show ?thesis
    proof (cases "t ! i = ch")
      case True
      with False d show ?thesis by (simp add: str_find.simps)
    next
      case neq: False
      with False d "1.IH" show ?thesis
        by (subst str_find.simps) auto
    qed
  qed
qed

lemma score_loop_gaps:
  "score_loop t q i s =
     map_option (\<lambda>gs. s + int (sum_list gs)) (greedy_gaps q (drop i t))"
proof (induction q arbitrary: i s)
  case Nil
  then show ?case by simp
next
  case (Cons c q)
  show ?case
  proof (cases "c \<in> set (drop i t)")
    case False
    then show ?thesis by (simp add: str_find_eq)
  next
    case True
    then show ?thesis
      by (simp add: str_find_eq Cons.IH Let_def option.map_comp comp_def
            nat_int_add ac_simps)
  qed
qed

lemma greedy_gaps_None: "greedy_gaps q t = None \<longleftrightarrow> \<not> subseq q t"
proof (induction t arbitrary: q)
  case Nil
  then show ?case by (cases q) simp_all
next
  case (Cons y ys)
  show ?case
  proof (cases q)
    case Nil
    then show ?thesis by simp
  next
    case q: (Cons c cs)
    show ?thesis
    proof (cases "c = y")
      case True
      with q Cons.IH [of cs] show ?thesis by simp
    next
      case False
      with q Cons.IH [of q] show ?thesis by (auto simp: Let_def)
    qed
  qed
qed

lemma fuzzy_general_gaps:
  "fuzzy_general q t =
     map_option (\<lambda>gs. int (sum_list gs) + (int (length t) - int (length q)))
       (greedy_gaps q t)"
  by (cases "greedy_gaps q t") (simp_all add: fuzzy_general_def score_loop_gaps)

lemma fuzzy_general_None: "fuzzy_general q t = None \<longleftrightarrow> \<not> subseq q t"
  by (simp add: fuzzy_general_gaps greedy_gaps_None)

lemma fuzzy_score_None: "fuzzy_score q t = None \<longleftrightarrow> \<not> subseq (lower q) (lower t)"
proof (cases "prefix (lower q) (lower t)")
  case True
  then have "subseq (lower q) (lower t)"
    by (rule prefix_imp_subseq)
  with True show ?thesis by (simp add: fuzzy_score_def Let_def)
next
  case False
  then have "lower q \<noteq> []" by auto
  with False show ?thesis
    by (simp add: fuzzy_score_def Let_def fuzzy_general_None)
qed

lemma greedy_gaps_prefix:
  "greedy_gaps q (q @ r) = Some (replicate (length q) 0)"
  by (induction q) simp_all


text \<open>On ASCII text, lowercasing maps the letters \<open>A\<close> to \<open>Z\<close> and nothing else.\<close>

lemma lower_aux_ascii_text:
  "list_all (\<lambda>c. c < 0x80) s \<Longrightarrow>
   lower_aux b s = map (\<lambda>c. if 0x41 \<le> c \<and> c \<le> 0x5A then c + 32 else c) s"
  by (induction s arbitrary: b) (simp_all add: lower_cp_def capital_sigma_def)

lemma lower_ascii_text:
  "list_all (\<lambda>c. c < 0x80) s \<Longrightarrow>
   lower s = map (\<lambda>c. if 0x41 \<le> c \<and> c \<le> 0x5A then c + 32 else c) s"
  by (simp add: lower_def lower_aux_ascii_text)

lemmas ascii_eval = ascii_def ord_def lower_ascii_text

lemma lower_examples:
  "lower (ascii ''fi'') = ascii ''fi''" "lower (ascii ''fx'') = ascii ''fx''"
  "lower (ascii ''z'') = ascii ''z''" "lower (ascii ''n'') = ascii ''n''"
  "lower (ascii ''i'') = ascii ''i''"
  "lower (ascii ''Firefox'') = ascii ''firefox''"
  by (simp_all add: lower_ascii_text ascii_def ord_def)

text \<open>
  Lowercasing can lengthen a string, and it is not always an extension of the lowercase
  of a beginning of the string: the capital I with dot above \<open>U+0130\<close> becomes two
  code points, and a capital sigma at the end of a word becomes the final sigma.
\<close>

lemma lower_examples_beyond_ascii:
  "lower [0x130] = ascii ''i'' @ [0x307]"
  "lower (0x130 # ascii ''nternet'') = ascii ''i'' @ 0x307 # ascii ''nternet''"
  "lower [0x391, 0x3A3] = [0x3B1, 0x3C2]"
  "lower [0x391, 0x3A3, 0x391] = [0x3B1, 0x3C3, 0x3B1]"
  "lower [0x3B1, 0x3C3, 0x3B1] = [0x3B1, 0x3C3, 0x3B1]"
  by (simp_all add: str_eval latin_lower_table_def greek_lower_table_def)

text \<open>
  Claim C4, as the code has it. When the lowercased text starts with the lowercased
  query, the general path of the scorer matches every query character with gap 0 and
  so yields \<open>len(t) - len(q)\<close>, the lengths being those of the lowercased strings, as
  in the code: that is 0 exactly when the two lowercased strings have the same length.
  The early \<open>return 0\<close> for a prefix is therefore a case of its own, which the general
  path does not reproduce for a proper prefix.
\<close>

theorem fuzzy_general_on_prefix:
  assumes "prefix (lower q) (lower t)"
  shows "fuzzy_general (lower q) (lower t) =
           Some (int (length (lower t)) - int (length (lower q))) \<and>
         (fuzzy_general (lower q) (lower t) = Some 0 \<longleftrightarrow>
            length (lower t) = length (lower q))"
proof -
  from assms obtain r where "lower t = lower q @ r"
    by (auto simp: prefix_def)
  then have "greedy_gaps (lower q) (lower t) = Some (replicate (length (lower q)) 0)"
    using greedy_gaps_prefix [of "lower q" r] by simp
  then have "fuzzy_general (lower q) (lower t) =
      Some (int (length (lower t)) - int (length (lower q)))"
    by (simp add: fuzzy_general_gaps)
  then show ?thesis by auto
qed

theorem fuzzy_general_on_prefix_witness:
  "prefix (lower (ascii ''fi'')) (lower (ascii ''Firefox'')) \<and>
   fuzzy_general (lower (ascii ''fi'')) (lower (ascii ''Firefox'')) = Some 5 \<and>
   prefix (lower (ascii ''i'')) (lower [0x130]) \<and>
   fuzzy_general (lower (ascii ''i'')) (lower [0x130]) = Some 1"
proof -
  have h: "prefix (lower (ascii ''fi'')) (lower (ascii ''Firefox''))"
    by (simp add: lower_examples) (simp add: ascii_def)
  have k: "prefix (lower (ascii ''i'')) (lower [0x130])"
    by (simp add: lower_examples lower_examples_beyond_ascii)
  from h k fuzzy_general_on_prefix [OF h] fuzzy_general_on_prefix [OF k]
  show ?thesis
    by (simp add: lower_examples lower_examples_beyond_ascii) (simp add: ascii_def)
qed

text \<open>
  Claim C4 as stated fails: for the query \<open>fi\<close> and the text \<open>Firefox\<close>, a prefix, the
  general path yields 5 where the scorer returns 0.
\<close>

theorem fuzzy_general_prefix_counterexample:
  "ascii ''fi'' \<noteq> [] \<and> prefix (lower (ascii ''fi'')) (lower (ascii ''Firefox'')) \<and>
   fuzzy_general (lower (ascii ''fi'')) (lower (ascii ''Firefox'')) = Some 5 \<and>
   fuzzy_general (lower (ascii ''fi'')) (lower (ascii ''Firefox'')) \<noteq> Some 0 \<and>
   fuzzy_score (ascii ''fi'') (ascii ''Firefox'') = Some 0"
  by (simp add: lower_examples fuzzy_score_def)
     (simp add: ascii_def ord_def fuzzy_general_def str_find.simps)




text \<open>
  Claim C7. If the lowercased text starts with the lowercased query the score is 0, in
  particular when text and query are equal; and the empty query scores 0 against every
  text.
\<close>

theorem fuzzy_score_prefix_zero:
  "(prefix (lower q) (lower t) \<longrightarrow> fuzzy_score q t = Some 0) \<and>
   fuzzy_score q q = Some 0 \<and> fuzzy_score [] t = Some 0"
  by (simp add: fuzzy_score_def Let_def)

theorem fuzzy_score_prefix_zero_witness:
  "prefix (lower (ascii ''fi'')) (lower (ascii ''Firefox'')) \<and>
   fuzzy_score (ascii ''fi'') (ascii ''Firefox'') = Some 0"
proof -
  have h: "prefix (lower (ascii ''fi'')) (lower (ascii ''Firefox''))"
    by (simp add: lower_examples) (simp add: ascii_def)
  from h fuzzy_score_prefix_zero [of "ascii ''fi''" "ascii ''Firefox''"]
  show ?thesis by simp
qed

text \<open>
  Claim C8, as the code has it. Appending a character to a query that does not match a
  text gives a query that does not match it either, provided the query holds no
  capital sigma \<open>U+03A3\<close>, the one character whose lowercase depends on what follows
  it: then \<open>NO_MATCH\<close> never turns into a match.
\<close>

theorem fuzzy_score_extension_no_match:
  assumes "fuzzy_score q t = None" and "capital_sigma \<notin> set q"
  shows "fuzzy_score (q @ [c]) t = None"
proof -
  from assms(1) have "\<not> subseq (lower q) (lower t)"
    by (simp add: fuzzy_score_None)
  moreover from assms(2) have "subseq (lower q) (lower (q @ [c]))"
    by (simp add: lower_extends prefix_imp_subseq)
  ultimately have "\<not> subseq (lower (q @ [c])) (lower t)"
    using subseq_order.trans by blast
  then show ?thesis by (simp add: fuzzy_score_None)
qed

theorem fuzzy_score_extension_no_match_witness:
  "fuzzy_score (ascii ''z'') (ascii ''Firefox'') = None \<and>
   capital_sigma \<notin> set (ascii ''z'') \<and>
   fuzzy_score (ascii ''z'' @ [ord CHR ''f'']) (ascii ''Firefox'') = None \<and>
   fuzzy_score (ascii ''z'' @ [capital_sigma]) (ascii ''Firefox'') = None"
proof -
  have h: "fuzzy_score (ascii ''z'') (ascii ''Firefox'') = None"
    by (simp add: lower_examples fuzzy_score_def)
       (simp add: ascii_def ord_def fuzzy_general_def str_find.simps)
  have k: "capital_sigma \<notin> set (ascii ''z'')"
    by (simp add: ascii_def ord_def capital_sigma_def)
  from h k fuzzy_score_extension_no_match [OF h k, of "ord CHR ''f''"]
    fuzzy_score_extension_no_match [OF h k, of capital_sigma]
  show ?thesis by simp
qed

text \<open>
  Claim C8 as stated fails. The query of the two Greek capitals alpha, sigma lowercases
  to alpha, final sigma, which is not a subsequence of the text alpha, sigma, alpha:
  the score is \<open>None\<close>. With a capital alpha appended the sigma is no longer final, the
  lowercased query is the text itself, and the score is 0.
\<close>

theorem fuzzy_score_extension_counterexample:
  "fuzzy_score [0x391, 0x3A3] [0x3B1, 0x3C3, 0x3B1] = None \<and>
   fuzzy_score ([0x391, 0x3A3] @ [0x391]) [0x3B1, 0x3C3, 0x3B1] = Some 0"
  by (simp add: fuzzy_score_def lower_examples_beyond_ascii)
     (simp add: fuzzy_general_def str_find.simps)

section \<open>Properties of the repository load\<close>

lemma visible_append: "visible fs (ps @ qs) = visible fs ps @ visible fs qs"
  by (induction ps) (auto split: option.splits)

lemma visible_parsed:
  "d \<in> set (visible fs ps) \<Longrightarrow> \<exists>p \<in> set ps. parse_desktop_file fs p = Some d \<and> \<not> no_display d"
  by (induction ps) (auto split: option.splits if_splits)

lemma first_by_name_append:
  "first_by_name S (xs @ ys) = first_by_name S xs @ first_by_name (S \<union> name ` set xs) ys"
  by (induction xs arbitrary: S) (auto simp: insert_absorb)

lemma scan_files_eq:
  "scan_files fs ps (seen, es) =
     (seen \<union> name ` set (visible fs ps), es @ first_by_name seen (visible fs ps))"
proof (induction ps arbitrary: seen es)
  case Nil
  then show ?case by simp
next
  case (Cons p ps)
  then show ?case
    by (auto simp: insert_absorb split: option.splits)
qed

lemma scan_paths_eq:
  "scan_paths fs paths (seen, es) =
     (seen \<union> name ` set (scan_order fs paths), es @ first_by_name seen (scan_order fs paths))"
proof (induction paths arbitrary: seen es)
  case Nil
  then show ?case by (simp add: scan_order_def)
next
  case (Cons base paths)
  have so: "scan_order fs (base # paths) =
      visible fs (case fs_glob fs base of None \<Rightarrow> [] | Some files \<Rightarrow> files) @ scan_order fs paths"
    by (simp add: scan_order_def visible_append)
  show ?case
  proof (cases "fs_glob fs base")
    case None
    with Cons so show ?thesis by simp
  next
    case (Some files)
    with Cons so show ?thesis
      by (simp add: scan_files_eq first_by_name_append Un_assoc image_Un)
  qed
qed

lemma first_by_name_names:
  "name ` set (first_by_name S ds) = name ` set ds - S"
  by (induction ds arbitrary: S) auto

lemma first_by_name_distinct: "distinct (map name (first_by_name S ds))"
  by (induction ds arbitrary: S) (auto simp: first_by_name_names)

lemma first_by_name_subset: "set (first_by_name S ds) \<subseteq> set ds"
  by (induction ds arbitrary: S) auto

lemma first_by_name_find:
  "d \<in> set (first_by_name S ds) \<Longrightarrow> find (\<lambda>x. name x = name d) ds = Some d"
proof (induction ds arbitrary: S)
  case Nil
  then show ?case by simp
next
  case (Cons a ds)
  show ?case
  proof (cases "name a = name d")
    case True
    from Cons.prems have "name d \<in> name ` set (a # ds) - S"
      using first_by_name_names by blast
    with True have notin: "name a \<notin> S" by simp
    have "d = a"
    proof (rule ccontr)
      assume "d \<noteq> a"
      with Cons.prems notin have "d \<in> set (first_by_name (insert (name a) S) ds)"
        by simp
      then have "name d \<in> name ` set ds - insert (name a) S"
        using first_by_name_names by blast
      with True show False by simp
    qed
    then show ?thesis by simp
  next
    case False
    with Cons show ?thesis by (auto split: if_splits)
  qed
qed

lemma collect_eq:
  "collect_desktop_entries fs paths =
     sort_key (\<lambda>x. lower (name x)) (first_by_name {} (scan_order fs paths))"
  by (simp add: collect_desktop_entries_def scan_paths_eq)

lemma parse_desktop_file_exec:
  assumes "parse_desktop_file fs p = Some d"
  shows "path d = p \<and> (\<exists>cfg sec. fs_read fs p = Some cfg \<and> cfg (ascii ''Desktop Entry'') = Some sec \<and>
            sec_get sec (ascii ''Exec'') [] \<noteq> [] \<and>
            exec d = sanitize_exec_field (sec_get sec (ascii ''Exec'') []))"
  using assms
  by (auto simp: parse_desktop_file_def Let_def split: option.splits if_splits)

lemma scan_order_parsed:
  "d \<in> set (scan_order fs paths) \<Longrightarrow> \<exists>p. parse_desktop_file fs p = Some d"
  by (auto simp: scan_order_def dest: visible_parsed)

lemma example_parse:
  "parse_desktop_file example_fs (ascii ''/a/e.desktop'') =
     Some \<lparr>name = ascii ''Editor'', exec = ascii ''vim'', comment = [], terminal = False,
           path = ascii ''/a/e.desktop'', no_display = False, categories = []\<rparr>"
  "parse_desktop_file example_fs (ascii ''/b/e.desktop'') =
     Some \<lparr>name = ascii ''Editor'', exec = ascii ''emacs'', comment = [], terminal = False,
           path = ascii ''/b/e.desktop'', no_display = False, categories = []\<rparr>"
  "parse_desktop_file example_fs (ascii ''/b/l.desktop'') =
     Some \<lparr>name = ascii ''editor'', exec = [], comment = [], terminal = False,
           path = ascii ''/b/l.desktop'', no_display = False, categories = []\<rparr>"
  by (simp_all add: parse_desktop_file_def example_fs_def getboolean_def sec_get_def
        sanitize_exec_field_def clean_text_def strip_def isspace_def is_field_code_def
        ascii_eval)

lemma example_glob:
  "fs_glob example_fs (ascii ''/a'') = Some [ascii ''/a/e.desktop'']"
  "fs_glob example_fs (ascii ''/b'') = Some [ascii ''/b/e.desktop'', ascii ''/b/l.desktop'']"
  by (simp_all add: example_fs_def ascii_def ord_def)

lemma example_collect:
  "collect_desktop_entries example_fs example_paths =
     [\<lparr>name = ascii ''Editor'', exec = ascii ''vim'', comment = [], terminal = False,
        path = ascii ''/a/e.desktop'', no_display = False, categories = []\<rparr>,
      \<lparr>name = ascii ''editor'', exec = [], comment = [], terminal = False,
        path = ascii ''/b/l.desktop'', no_display = False, categories = []\<rparr>]"
  by (simp add: collect_desktop_entries_def example_paths_def example_glob example_parse)
     (simp add: ascii_eval)

lemma example_scan_order:
  "scan_order example_fs example_paths =
     [\<lparr>name = ascii ''Editor'', exec = ascii ''vim'', comment = [], terminal = False,
        path = ascii ''/a/e.desktop'', no_display = False, categories = []\<rparr>,
      \<lparr>name = ascii ''Editor'', exec = ascii ''emacs'', comment = [], terminal = False,
        path = ascii ''/b/e.desktop'', no_display = False, categories = []\<rparr>,
      \<lparr>name = ascii ''editor'', exec = [], comment = [], terminal = False,
        path = ascii ''/b/l.desktop'', no_display = False, categories = []\<rparr>]"
  by (simp add: scan_order_def example_paths_def example_glob example_parse)

text \<open>
  Claim C2, as the code has it. Every entry of the loaded repository comes from a
  shortcut file whose \<open>Exec\<close> value, as read, is not empty, and its command is the
  sanitized form of that value. The test for an empty command is made before the
  sanitizing, so the sanitized command itself may be empty.
\<close>

theorem collected_exec_of_nonempty_raw:
  "\<forall>d \<in> set (collect_desktop_entries fs paths).
     \<exists>cfg sec. fs_read fs (path d) = Some cfg \<and> cfg (ascii ''Desktop Entry'') = Some sec \<and>
       sec_get sec (ascii ''Exec'') [] \<noteq> [] \<and>
       exec d = sanitize_exec_field (sec_get sec (ascii ''Exec'') [])"
proof
  fix d
  assume "d \<in> set (collect_desktop_entries fs paths)"
  then have "d \<in> set (scan_order fs paths)"
    using first_by_name_subset by (auto simp: collect_eq)
  then obtain p where "parse_desktop_file fs p = Some d"
    using scan_order_parsed by blast
  then show "\<exists>cfg sec. fs_read fs (path d) = Some cfg \<and> cfg (ascii ''Desktop Entry'') = Some sec \<and>
       sec_get sec (ascii ''Exec'') [] \<noteq> [] \<and>
       exec d = sanitize_exec_field (sec_get sec (ascii ''Exec'') [])"
    using parse_desktop_file_exec by blast
qed

theorem collected_exec_of_nonempty_raw_witness:
  "\<lparr>name = ascii ''Editor'', exec = ascii ''vim'', comment = [], terminal = False,
        path = ascii ''/a/e.desktop'', no_display = False, categories = []\<rparr>
     \<in> set (collect_desktop_entries example_fs example_paths) \<and>
   (\<exists>cfg sec. fs_read example_fs (ascii ''/a/e.desktop'') = Some cfg \<and>
       cfg (ascii ''Desktop Entry'') = Some sec \<and> sec_get sec (ascii ''Exec'') [] \<noteq> [] \<and>
       ascii ''vim'' = sanitize_exec_field (sec_get sec (ascii ''Exec'') []))"
proof -
  let ?d = "\<lparr>name = ascii ''Editor'', exec = ascii ''vim'', comment = [], terminal = False,
        path = ascii ''/a/e.desktop'', no_display = False, categories = []\<rparr>"
  have m: "?d \<in> set (collect_desktop_entries example_fs example_paths)"
    by (simp add: example_collect)
  from collected_exec_of_nonempty_raw [of example_fs example_paths, rule_format, OF m] m
  show ?thesis by simp
qed

text \<open>
  Claim C2 as stated fails: a shortcut file whose \<open>Exec\<close> value is the field code \<open>%U\<close>
  is accepted into the repository with an empty command.
\<close>

theorem collected_exec_empty_counterexample:
  "\<lparr>name = ascii ''editor'', exec = [], comment = [], terminal = False,
        path = ascii ''/b/l.desktop'', no_display = False, categories = []\<rparr>
     \<in> set (collect_desktop_entries example_fs example_paths) \<and>
   parse_desktop_file example_fs (ascii ''/b/l.desktop'') =
     Some \<lparr>name = ascii ''editor'', exec = [], comment = [], terminal = False,
        path = ascii ''/b/l.desktop'', no_display = False, categories = []\<rparr> \<and>
   sanitize_exec_field (ascii ''%U'') = []"
  by (simp add: example_collect example_parse)
     (simp add: sanitize_exec_field_def strip_def is_field_code_def ascii_def ord_def)

text \<open>
  Claim C3, as the code has it. The loader removes duplicates by the display name as it
  is written, case included: no two entries of the loaded repository have the same name,
  every name met during the scan is the name of a loaded entry, and each loaded entry is
  the first one in scan order that has its name.
\<close>

theorem collect_dedup_exact_name:
  "distinct (map name (collect_desktop_entries fs paths)) \<and>
   name ` set (collect_desktop_entries fs paths) = name ` set (scan_order fs paths) \<and>
   (\<forall>d \<in> set (collect_desktop_entries fs paths).
      find (\<lambda>x. name x = name d) (scan_order fs paths) = Some d)"
proof -
  let ?ds = "first_by_name {} (scan_order fs paths)"
  have "distinct (map name ?ds)" by (rule first_by_name_distinct)
  then have "distinct (map name (sort_key (\<lambda>x. lower (name x)) ?ds))"
    by (simp add: distinct_map)
  moreover have "name ` set ?ds = name ` set (scan_order fs paths)"
    by (simp add: first_by_name_names)
  ultimately show ?thesis
    by (auto simp: collect_eq dest: first_by_name_find)
qed

theorem collect_dedup_exact_name_witness:
  "map path (collect_desktop_entries example_fs example_paths) = [ascii ''/a/e.desktop'', ascii ''/b/l.desktop''] \<and>
   map path (scan_order example_fs example_paths) = [ascii ''/a/e.desktop'', ascii ''/b/e.desktop'', ascii ''/b/l.desktop''] \<and>
   distinct (map name (collect_desktop_entries example_fs example_paths)) \<and>
   map_option path (find (\<lambda>x. name x = ascii ''Editor'') (scan_order example_fs example_paths)) =
     Some (ascii ''/a/e.desktop'')"
proof -
  let ?d = "\<lparr>name = ascii ''Editor'', exec = ascii ''vim'', comment = [], terminal = False,
        path = ascii ''/a/e.desktop'', no_display = False, categories = []\<rparr>"
  have m: "?d \<in> set (collect_desktop_entries example_fs example_paths)"
    by (simp add: example_collect)
  have "find (\<lambda>x. name x = name ?d) (scan_order example_fs example_paths) = Some ?d"
    using collect_dedup_exact_name [of example_fs example_paths] m by blast
  then have "map_option path (find (\<lambda>x. name x = ascii ''Editor'') (scan_order example_fs example_paths)) =
     Some (ascii ''/a/e.desktop'')" by simp
  moreover have "distinct (map name (collect_desktop_entries example_fs example_paths))"
    using collect_dedup_exact_name [of example_fs example_paths] by blast
  ultimately show ?thesis
    by (simp add: example_collect example_scan_order)
qed

text \<open>
  Claim C3 as stated fails: the names \<open>Editor\<close> and \<open>editor\<close> are equal after
  lowercasing, and both entries are in the loaded repository.
\<close>

theorem collect_dedup_case_counterexample:
  "map (\<lambda>d. (name d, path d)) (collect_desktop_entries example_fs example_paths) =
     [(ascii ''Editor'', ascii ''/a/e.desktop''), (ascii ''editor'', ascii ''/b/l.desktop'')] \<and>
   lower (ascii ''Editor'') = lower (ascii ''editor'')"
  by (simp add: example_collect) (simp add: ascii_eval)

section \<open>Properties of the ranking\<close>

lemma best_fold:
  "foldl (best_step q) b ts =
     (let ms = map the (filter (\<lambda>s. s \<noteq> None) (map (fuzzy_score q) ts)) in
      case b of
        None \<Rightarrow> if ms = [] then None else Some (Min (set ms))
      | Some v \<Rightarrow> Some (Min (set (v # ms))))"
proof (induction ts arbitrary: b)
  case Nil
  then show ?case by (simp split: option.splits)
next
  case (Cons t ts)
  let ?ms = "map the (filter (\<lambda>s. s \<noteq> None) (map (fuzzy_score q) ts))"
  show ?case
  proof (cases "fuzzy_score q t")
    case None
    then have "best_step q b t = b"
      by (simp add: best_step_def)
    with None show ?thesis
      by (simp add: Cons.IH)
  next
    case (Some s)
    show ?thesis
    proof (cases b)
      case None
      with Some have "best_step q b t = Some s"
        by (simp add: best_step_def)
      with Some None show ?thesis
        by (simp add: Cons.IH)
    next
      case b: (Some v)
      with Some have bs: "best_step q b t = Some (min v s)"
        by (simp add: best_step_def min_def)
      have "Min (insert (min v s) (set ?ms)) = Min (insert v (insert s (set ?ms)))"
        by (cases "set ?ms = {}") (simp_all add: min.assoc)
      with Some b bs show ?thesis
        by (simp add: Cons.IH)
    qed
  qed
qed

lemma best_score_min: "best_score q e = min_field_score q e"
  by (simp only: best_score_def best_fold)
     (simp add: min_field_score_def field_scores_def Let_def)

lemma scored_fst:
  "map fst (scored q es) = filter (\<lambda>e. best_score q e \<noteq> None) es"
  by (induction es) (auto split: option.splits)

lemma scored_snd:
  "x \<in> set (scored q es) \<Longrightarrow> best_score q (fst x) = Some (snd x)"
  by (induction es) (auto split: option.splits)

lemma scored_key_filter:
  "map fst (filter (\<lambda>x. rank_key x = k) (scored q es)) =
     filter (\<lambda>e. map_option (\<lambda>s. (s, lower (name e))) (best_score q e) = Some k) es"
  by (induction es) (auto simp: rank_key_def split: option.splits)

text \<open>
  Claim C5, as the code has it. Let \<open>q'\<close> be the query without its leading and
  trailing white space. The ranked list holds exactly the candidates with a field that
  matches \<open>q'\<close>, each as often as the candidate list does; every candidate is paired with
  the minimum of its field scores against \<open>q'\<close> that are not \<open>NO_MATCH\<close>; the list is
  sorted by score, then lowercased name; and candidates with equal keys keep the order
  they have in the candidate list.
\<close>

theorem rank_filter_min_sorted:
  "mset (map fst (rank q C)) = mset (filter (\<lambda>e. min_field_score (strip q) e \<noteq> None) C) \<and>
   (\<forall>x \<in> set (rank q C). min_field_score (strip q) (fst x) = Some (snd x)) \<and>
   sorted (map rank_key (rank q C)) \<and>
   (\<forall>k. map fst (filter (\<lambda>x. rank_key x = k) (rank q C)) =
        filter (\<lambda>e. map_option (\<lambda>s. (s, lower (name e))) (min_field_score (strip q) e) = Some k) C)"
proof -
  let ?q = "strip q"
  have r: "rank q C = sort_key rank_key (scored ?q C)"
    by (simp add: rank_def)
  have "mset (map fst (rank q C)) = mset (map fst (scored ?q C))"
    by (simp add: r)
  then have a: "mset (map fst (rank q C)) = mset (filter (\<lambda>e. min_field_score ?q e \<noteq> None) C)"
    by (simp add: scored_fst best_score_min)
  have b: "\<forall>x \<in> set (rank q C). min_field_score ?q (fst x) = Some (snd x)"
    using scored_snd [of _ ?q C] by (simp add: r best_score_min)
  have c: "sorted (map rank_key (rank q C))"
    by (simp add: r)
  have d: "map fst (filter (\<lambda>x. rank_key x = k) (rank q C)) =
        filter (\<lambda>e. map_option (\<lambda>s. (s, lower (name e))) (min_field_score ?q e) = Some k) C" for k
    by (simp add: r sort_key_stable scored_key_filter best_score_min)
  from a b c d show ?thesis by blast
qed

lemma ex_strip:
  "strip (ascii ''fi'') = ascii ''fi''" "strip (ascii ''fi '') = ascii ''fi''"
  "strip (ascii ''z'') = ascii ''z''" "strip [] = []"
  by (simp_all add: strip_def isspace_def ascii_def ord_def)

lemma ex_scores_fi:
  "best_score (ascii ''fi'') entry_firefox = Some 0"
  "best_score (ascii ''fi'') entry_files = Some 0"
  "best_score (ascii ''fi'') entry_terminal = None"
  by (simp_all add: best_score_def best_step_def entry_firefox_def entry_files_def entry_terminal_def
        fuzzy_score_def fuzzy_general_def ascii_eval str_find.simps)

lemma ex_scores_z:
  "best_score (ascii ''z'') entry_files = None" "best_score [] entry_files = Some 0"
  by (simp_all add: best_score_def best_step_def entry_files_def
        fuzzy_score_def fuzzy_general_def ascii_eval str_find.simps)

lemma ex_rank_fi:
  "rank (ascii ''fi'') [entry_firefox, entry_files, entry_terminal] = [(entry_files, 0), (entry_firefox, 0)]"
  by (simp add: rank_def ex_strip ex_scores_fi rank_key_def)
     (simp add: entry_firefox_def entry_files_def ascii_eval)

lemma ex_rank_files:
  "rank (ascii ''fi '') [entry_files] = [(entry_files, 0)]"
  "rank (ascii ''z'') [entry_files] = []"
  "rank [] [entry_files] = [(entry_files, 0)]"
  by (simp_all add: rank_def ex_strip ex_scores_fi ex_scores_z)

lemma ex_key_z:
  "ascii ''z'' = [ord CHR ''z'']"
  "ord CHR ''z'' \<noteq> ord CHR 0x0A" "ord CHR ''z'' \<noteq> ord CHR 0x1B"
  "ord CHR ''z'' \<noteq> ord CHR 0x09" "ord CHR ''z'' \<noteq> ord CHR 0x7F"
  "ord CHR ''z'' \<noteq> ord CHR 0x08" "isprintable (ord CHR ''z'')"
  by (simp_all add: ascii_def ord_def isprintable_def)

text \<open>
  Claim C5 as stated fails for a query with white space at an end: no field of the entry
  \<open>Files\<close> matches the query \<open>fi\<close> followed by a space, and the entry is ranked, with
  score 0.
\<close>

theorem rank_unstripped_counterexample:
  "rank (ascii ''fi '') [entry_files] = [(entry_files, 0)] \<and>
   field_scores (ascii ''fi '') entry_files = [None, None, None, None]"
  by (simp add: ex_rank_files)
     (simp add: field_scores_def entry_files_def
        fuzzy_score_def fuzzy_general_def ascii_eval str_find.simps)

theorem rank_filter_min_sorted_witness:
  "rank (ascii ''fi'') [entry_firefox, entry_files, entry_terminal] = [(entry_files, 0), (entry_firefox, 0)] \<and>
   min_field_score (strip (ascii ''fi'')) entry_files = Some 0 \<and>
   min_field_score (strip (ascii ''fi'')) entry_firefox = Some 0 \<and>
   sorted (map rank_key (rank (ascii ''fi'') [entry_firefox, entry_files, entry_terminal]))"
proof -
  let ?C = "[entry_firefox, entry_files, entry_terminal]"
  have m: "(entry_files, 0) \<in> set (rank (ascii ''fi'') ?C)" "(entry_firefox, 0) \<in> set (rank (ascii ''fi'') ?C)"
    by (simp_all add: ex_rank_fi)
  from rank_filter_min_sorted [of "(ascii ''fi'')" ?C] m
  have "min_field_score (strip (ascii ''fi'')) entry_files = Some 0"
    "min_field_score (strip (ascii ''fi'')) entry_firefox = Some 0"
    "sorted (map rank_key (rank (ascii ''fi'') ?C))"
    by force+
  then show ?thesis by (simp add: ex_rank_fi)
qed

lemma dropWhile_self: "xs = [] \<or> \<not> P (hd xs) \<Longrightarrow> dropWhile P xs = xs"
  by (cases xs) auto

lemma strip_idem: "strip (strip s) = strip s"
proof -
  let ?u = "dropWhile isspace s"
  let ?w = "rev (dropWhile isspace (rev ?u))"
  have "?u = rev (takeWhile isspace (rev ?u) @ dropWhile isspace (rev ?u))"
    by (simp only: takeWhile_dropWhile_id rev_rev_ident)
  then have u: "?u = ?w @ rev (takeWhile isspace (rev ?u))"
    by (simp only: rev_append)
  have "?w = [] \<or> \<not> isspace (hd ?w)"
  proof (cases "?w = []")
    case True
    then show ?thesis by simp
  next
    case False
    with u have "hd ?u = hd ?w"
      by (metis hd_append2)
    moreover from False u have "?u \<noteq> []"
      by (metis append_is_Nil_conv)
    then have "\<not> isspace (hd ?u)" by (rule hd_dropWhile)
    ultimately show ?thesis by simp
  qed
  then have "dropWhile isspace ?w = ?w" by (rule dropWhile_self)
  then show ?thesis by (simp add: strip_def)
qed

lemma strip_all_space:
  assumes "\<forall>c \<in> set q. isspace c"
  shows "strip q = []"
proof -
  from assms have e: "dropWhile isspace q = []"
    by (simp only: dropWhile_eq_Nil_conv)
  show ?thesis unfolding strip_def e by simp
qed

lemma best_score_empty: "best_score [] e = Some 0"
  by (simp add: best_score_def best_step_def fuzzy_score_def lower_def)

lemma scored_empty: "scored [] C = map (\<lambda>e. (e, 0)) C"
  by (induction C) (simp_all add: best_score_empty)

lemma insort_key_zero:
  "insort_key rank_key (e, 0) (map (\<lambda>e. (e, 0)) xs) =
     map (\<lambda>e. (e, 0)) (insort_key (\<lambda>e. lower (name e)) e xs)"
  by (induction xs) (simp_all add: rank_key_def)

lemma sort_key_zero:
  "sort_key rank_key (map (\<lambda>e. (e, 0)) C) = map (\<lambda>e. (e, 0)) (sort_key (\<lambda>e. lower (name e)) C)"
  by (induction C) (simp_all add: insort_key_zero)

text \<open>
  Claim C10. The ranked list of a query is the ranked list of the query without its
  leading and trailing white space, and that is what \<open>update_filter\<close> stores. A query
  of white space only gives the list of the empty query: every candidate, with score 0,
  in the order of the lowercased names.
\<close>

theorem rank_depends_on_stripped_query:
  "rank q C = rank (strip q) C \<and>
   filtered (update_filter ui) = rank (strip (query ui)) (entries ui) \<and>
   ((\<forall>c \<in> set q. isspace c) \<longrightarrow>
      rank q C = rank [] C \<and>
      rank [] C = map (\<lambda>e. (e, 0)) (sort_key (\<lambda>e. lower (name e)) C))"
proof -
  have a: "rank q C = rank (strip q) C" for q C
    by (simp add: rank_def strip_idem)
  have b: "filtered (update_filter ui) = rank (strip (query ui)) (entries ui)"
    using a [of "query ui" "entries ui"] by (simp add: update_filter_def Let_def)
  have c: "rank [] C = map (\<lambda>e. (e, 0)) (sort_key (\<lambda>e. lower (name e)) C)"
    by (simp add: rank_def strip_def scored_empty sort_key_zero)
  have d: "rank q C = rank [] C" if "\<forall>c \<in> set q. isspace c"
    using that a [of q C] by (simp add: strip_all_space)
  from a b c d show ?thesis by blast
qed

theorem rank_depends_on_stripped_query_witness:
  "isspace (ord CHR '' '') \<and>
   rank (ascii ''  '') [entry_firefox, entry_files] = [(entry_files, 0), (entry_firefox, 0)] \<and>
   rank [] [entry_firefox, entry_files] = [(entry_files, 0), (entry_firefox, 0)]"
proof -
  have sp: "isspace (ord CHR '' '')"
    by (simp add: isspace_def ord_def)
  then have h: "\<forall>c \<in> set (ascii ''  ''). isspace c"
    by (simp add: ascii_def)
  have s: "sort_key (\<lambda>e. lower (name e)) [entry_firefox, entry_files] = [entry_files, entry_firefox]"
    by (simp add: entry_firefox_def entry_files_def ascii_eval)
  from rank_depends_on_stripped_query [of "(ascii ''  '')" "[entry_firefox, entry_files]"] h
  have r: "rank (ascii ''  '') [entry_firefox, entry_files] = rank [] [entry_firefox, entry_files]"
    "rank [] [entry_firefox, entry_files] =
       map (\<lambda>e. (e, 0)) (sort_key (\<lambda>e. lower (name e)) [entry_firefox, entry_files])"
    by blast+
  from sp show ?thesis by (simp only: r s) simp
qed

section \<open>Properties of the event loop\<close>

lemma ex_run_z:
  "run (init [entry_files]) [WStr (ord CHR ''z'')] =
     Continue \<lparr>entries = [entry_files], query = [ord CHR ''z''], filtered = [], selected = 0\<rparr>"
  by (simp add: init_def update_filter_def ex_rank_files [unfolded ex_key_z(1)] ex_key_z(2-))

text \<open>
  Claim C9. With no ranked match, the confirm key changes nothing: the iteration ends
  with the same state, no entry is launched, and the loop goes on with the next key.
\<close>

theorem confirm_on_empty_matches:
  assumes "filtered ui = []"
  shows "handle_key ui (WStr (ord CHR 0x0A)) = Continue ui \<and>
         run ui (WStr (ord CHR 0x0A) # ks) = run ui ks"
  using assms by simp

theorem confirm_on_empty_matches_witness:
  "filtered \<lparr>entries = [entry_files], query = [ord CHR ''z''], filtered = [], selected = 0\<rparr> = [] \<and>
   handle_key \<lparr>entries = [entry_files], query = [ord CHR ''z''], filtered = [], selected = 0\<rparr>
     (WStr (ord CHR 0x0A)) =
     Continue \<lparr>entries = [entry_files], query = [ord CHR ''z''], filtered = [], selected = 0\<rparr> \<and>
   run (init [entry_files]) [WStr (ord CHR ''z''), WStr (ord CHR 0x0A)] =
     Continue \<lparr>entries = [entry_files], query = [ord CHR ''z''], filtered = [], selected = 0\<rparr>"
proof -
  let ?ui = "\<lparr>entries = [entry_files], query = [ord CHR ''z''], filtered = [], selected = 0\<rparr>"
  have h: "filtered ?ui = []" by simp
  have r: "run (init [entry_files]) [WStr (ord CHR ''z''), WStr (ord CHR 0x0A)] = run ?ui [WStr (ord CHR 0x0A)]"
    using ex_run_z by (simp add: init_def update_filter_def ex_rank_files [unfolded ex_key_z(1)] ex_key_z(2-))
  from confirm_on_empty_matches [OF h, of "[]"] h r show ?thesis by simp
qed

text \<open>
  Claim C1 at the keys \<open>z\<close>, page down: the query \<open>z\<close> matches nothing, and page down
  on the empty list sets the selected index to \<open>-1\<close>, where move down keeps it at 0.
  Erasing the query then brings the entry back while the index stays \<open>-1\<close>.
\<close>

theorem page_down_on_empty_matches:
  "run (init [entry_files]) [WStr (ord CHR ''z''), WKey KEY_NPAGE] =
     Continue \<lparr>entries = [entry_files], query = [ord CHR ''z''], filtered = [], selected = - 1\<rparr> \<and>
   run (init [entry_files]) [WStr (ord CHR ''z''), WKey KEY_NPAGE, WKey KEY_BACKSPACE] =
     Continue \<lparr>entries = [entry_files], query = [], filtered = [(entry_files, 0)],
       selected = - 1\<rparr> \<and>
   run (init [entry_files]) [WStr (ord CHR ''z''), WKey KEY_DOWN] =
     Continue \<lparr>entries = [entry_files], query = [ord CHR ''z''], filtered = [], selected = 0\<rparr>"
  by (simp add: init_def update_filter_def ex_rank_files [unfolded ex_key_z(1)] ex_key_z(2-))

end
